theory Spec2Isabelle
  imports Main "HOL-Library.Sublist"
begin

section \<open>Python values used by the pipeline\<close>

text \<open>
  A Python \<open>str\<close> is a sequence of Unicode code points; offsets such as
  \<open>start_char\<close> count code points. It is modelled as a list of code point numbers.
  String literals of the source are written through \<open>str_lit\<close>.
\<close>

type_synonym pystr = "nat list"

definition str_lit :: "string \<Rightarrow> pystr" where
  "str_lit s = map of_char s"

datatype py_error =
    AttributeError
  | IndexError
  | KeyError
  | ValueError
  | OverlapError
  | FileNotFoundError
  | CalledProcessError int

text \<open>\<open>xs[a:b]\<close> for non-negative bounds: out-of-range bounds are clamped, never an error.\<close>

definition slice :: "'a list \<Rightarrow> nat \<Rightarrow> nat \<Rightarrow> 'a list" where
  "slice xs a b = take (b - a) (drop a xs)"

text \<open>\<open>sep.join(xs)\<close>.\<close>

fun py_join :: "'a list \<Rightarrow> 'a list list \<Rightarrow> 'a list" where
  "py_join sep [] = []"
| "py_join sep [x] = x"
| "py_join sep (x # y # ys) = x @ sep @ py_join sep (y # ys)"

text \<open>
  \<open>s.replace(old, new)\<close>: the occurrences of \<open>old\<close> are found scanning from the left
  and do not overlap. For the empty \<open>old\<close> Python puts \<open>new\<close> before every character
  and at the end.
\<close>

function py_replace :: "'a list \<Rightarrow> 'a list \<Rightarrow> 'a list \<Rightarrow> 'a list" where
  "py_replace [] old new = (if old = [] then new else [])"
| "py_replace (x # xs) old new =
     (if old = [] then new @ x # py_replace xs old new
      else if prefix old (x # xs) then new @ py_replace (drop (length old) (x # xs)) old new
      else x # py_replace xs old new)"
  by pat_completeness auto
termination
  by (relation "measure (\<lambda>(s, old, new). length s)") auto

text \<open>
  A \<open>dict\<close> keeps its keys in insertion order; assigning to a key that is present
  changes the value and leaves the position. It is an association list with distinct keys.
\<close>

fun dict_set :: "('k \<times> 'v) list \<Rightarrow> 'k \<Rightarrow> 'v \<Rightarrow> ('k \<times> 'v) list" where
  "dict_set [] k v = [(k, v)]"
| "dict_set ((k', v') # d) k v =
     (if k' = k then (k, v) # d else (k', v') # dict_set d k v)"

definition dict_of_items :: "('k \<times> 'v) list \<Rightarrow> ('k \<times> 'v) list" where
  "dict_of_items items = fold (\<lambda>(k, v) d. dict_set d k v) items []"

definition dict_get :: "('k \<times> 'v) list \<Rightarrow> 'k \<Rightarrow> py_error + 'v" where
  "dict_get d k = (case map_of d k of None \<Rightarrow> Inl KeyError | Some v \<Rightarrow> Inr v)"

definition list_get :: "'a list \<Rightarrow> nat \<Rightarrow> py_error + 'a" where
  "list_get xs i = (if i < length xs then Inr (xs ! i) else Inl IndexError)"

text \<open>
  \<open>sorted(xs, key=f, reverse=True)\<close>: descending by key, and stable, that is, elements
  with equal keys keep the order they had in \<open>xs\<close>.
\<close>

definition py_sorted_reverse :: "('a \<Rightarrow> 'k::linorder) \<Rightarrow> 'a list \<Rightarrow> 'a list" where
  "py_sorted_reverse f xs = rev (sort_key f (rev xs))"

section \<open>Documents, spans and the loaded models\<close>

record token =
  tok_text :: pystr
  ent_type :: pystr

record span =
  span_start :: nat
  span_end :: nat
  start_char :: nat
  end_char :: nat
  span_text :: pystr
  span_label :: pystr

text \<open>
  A spaCy \<open>Doc\<close>: its text, its tokens, its entities (\<open>doc.ents\<close>) and its span groups
  (\<open>doc.spans\<close>, a dictionary from a key to a list of spans). The list that
  \<open>_set_error_spans\<close> builds holds what \<open>char_span\<close> returned, so an entry may be
  \<open>None\<close>; the methods that receive a span are modelled on an optional span.
\<close>

record doc =
  doc_text :: pystr
  tokens :: "token list"
  ents :: "span list"
  spans :: "string \<rightharpoonup> span option list"

datatype verbosity = Verbosity_TOP | Verbosity_CLOSEST | Verbosity_ALL

record suggest_item =
  si_term :: pystr
  si_distance :: nat
  si_count :: nat

record annotation =
  ann_start :: nat
  ann_end :: nat
  source_text :: pystr
  suggestions :: "pystr list"

text \<open>
  The pretrained artefacts held by a \<open>Speliuk\<close> object (\<open>self.nlp\<close>,
  \<open>self.error_detection_pipe\<close>, \<open>self.kenlm_scorer\<close>, \<open>self.sym_spell\<close>) and the
  library operations its methods call are parameters of the model: none of them is
  implemented in this repository.
  \<^item> \<open>kenlm_score\<close> is \<open>self.kenlm_scorer.score\<close>. Its results are only compared and
    sorted, so the score type is any linear order (a float that is not NaN).
  \<^item> \<open>sym_spell_lookup token verbosity max_edit_distance transfer_casing\<close> is
    \<open>self.sym_spell.lookup\<close>.
  \<^item> \<open>str_lower\<close> and \<open>str_isdigit\<close> are \<open>str.lower\<close> and \<open>str.isdigit\<close> (on one
    character), which depend on the Unicode tables.
  \<^item> \<open>char_span doc start_idx end_idx label\<close> is \<open>Doc.char_span\<close>, which returns
    \<open>None\<close> when the character range does not map to a span of tokens.
  \<^item> \<open>AnnotatedText\<close>, \<open>annotate\<close>, \<open>get_corrected_text\<close> and \<open>get_annotations\<close> are
    the imported annotated-text class; \<open>'at\<close> is the type of its objects, and
    \<open>annotate\<close>, which mutates the object or raises, returns the new object or the error.
\<close>

record ('s, 'at) speliuk =
  nlp :: "pystr \<Rightarrow> doc"
  error_detection_pipe :: "pystr \<Rightarrow> doc"
  kenlm_score :: "pystr \<Rightarrow> 's"
  sym_spell_lookup :: "pystr \<Rightarrow> verbosity \<Rightarrow> nat \<Rightarrow> bool \<Rightarrow> suggest_item list"
  str_lower :: "pystr \<Rightarrow> pystr"
  str_isdigit :: "nat \<Rightarrow> bool"
  char_span :: "doc \<Rightarrow> nat \<Rightarrow> nat \<Rightarrow> pystr \<Rightarrow> span option"
  AnnotatedText :: "pystr \<Rightarrow> 'at"
  annotate :: "'at \<Rightarrow> nat \<Rightarrow> nat \<Rightarrow> pystr \<Rightarrow> py_error + 'at"
  get_corrected_text :: "'at \<Rightarrow> pystr"
  get_annotations :: "'at \<Rightarrow> annotation list"

section \<open>Candidate generation and re-ranking (\<open>correct.py\<close>)\<close>

definition MASK_TOKEN :: pystr where
  "MASK_TOKEN = str_lit ''<mask>''"

text \<open>\<open>Speliuk._symspell_candidates\<close>.\<close>

definition symspell_candidates :: "('s, 'at) speliuk \<Rightarrow> pystr \<Rightarrow> pystr list" where
  "symspell_candidates S token =
     (let suggestions = sym_spell_lookup S token Verbosity_CLOSEST 2 True;
          candidates = take 5 (map si_term suggestions)
      in candidates)"

text \<open>
  \<open>Speliuk._kenlm_rerank\<close>. \<open>masked_score\<close> is the body of its loop for one candidate;
  \<open>rerank_loop\<close> is the loop, filling the dictionary \<open>scores\<close>.
\<close>

definition masked_score :: "('s, 'at) speliuk \<Rightarrow> pystr \<Rightarrow> pystr \<Rightarrow> 's" where
  "masked_score S masked_text candidate =
     (let text = py_replace masked_text MASK_TOKEN candidate;
          prob = kenlm_score S (str_lower S text)
      in prob)"

fun rerank_loop ::
  "('s, 'at) speliuk \<Rightarrow> pystr \<Rightarrow> pystr list \<Rightarrow> (pystr \<times> 's) list \<Rightarrow> (pystr \<times> 's) list" where
  "rerank_loop S masked_text [] scores = scores"
| "rerank_loop S masked_text (candidate # candidates) scores =
     rerank_loop S masked_text candidates
       (dict_set scores candidate (masked_score S masked_text candidate))"

definition kenlm_rerank ::
  "('s::linorder, 'at) speliuk \<Rightarrow> pystr \<Rightarrow> pystr list \<Rightarrow> (pystr \<times> 's) list" where
  "kenlm_rerank S masked_text candidates =
     (let scores = rerank_loop S masked_text candidates [];
          scores = dict_of_items (py_sorted_reverse snd scores)
      in scores)"

text \<open>
  \<open>Speliuk.top_candidate\<close>. \<open>scored_candidates\<close> is its first three lines: the
  suggestions, with the token appended when it is not among them.
\<close>

definition scored_candidates :: "('s, 'at) speliuk \<Rightarrow> pystr \<Rightarrow> pystr list" where
  "scored_candidates S token =
     (let candidates = symspell_candidates S token
      in if token \<notin> set candidates then candidates @ [token] else candidates)"

definition top_candidate ::
  "('s::linorder, 'at) speliuk \<Rightarrow> pystr \<Rightarrow> pystr \<Rightarrow> py_error + pystr" where
  "top_candidate S masked_text token =
     (let candidates = scored_candidates S token;
          kenlm_candidates = kenlm_rerank S masked_text candidates
      in case list_get (map fst kenlm_candidates) 0 of
           Inl e \<Rightarrow> Inl e
         | Inr top_cand \<Rightarrow>
             (case dict_get kenlm_candidates token of
                Inl e \<Rightarrow> Inl e
              | Inr token_score \<Rightarrow>
                  (case dict_get kenlm_candidates top_cand of
                     Inl e \<Rightarrow> Inl e
                   | Inr top_score \<Rightarrow>
                       if token_score = top_score then Inr token else Inr top_cand)))"

text \<open>\<open>Speliuk.get_masked_text\<close>; \<open>correct\<close> calls it with the default \<open>window = 5\<close>.\<close>

definition get_masked_text :: "doc \<Rightarrow> span \<Rightarrow> nat \<Rightarrow> pystr" where
  "get_masked_text d sp window =
     (let left_start = (if window \<le> span_start sp then span_start sp - window else 0);
          left_end = span_start sp;
          left_text = py_join (str_lit '' '') (map tok_text (slice (tokens d) left_start left_end));
          right_start = span_end sp;
          right_end = span_end sp + window;
          right_text = py_join (str_lit '' '') (map tok_text (slice (tokens d) right_start right_end));
          masked_text = left_text @ (str_lit '' '' @ MASK_TOKEN @ str_lit '' '') @ right_text
      in masked_text)"

text \<open>
  \<open>Speliuk._set_error_spans\<close>. The assignment \<open>doc.spans["speliuk_errors"] = error_spans\<close>
  makes a span group of the list, and spaCy refuses an entry that is not a span of the
  document: when \<open>char_span\<close> returned \<open>None\<close> for some entity the assignment raises
  ValueError, the method does not return and nothing is stored.
\<close>

definition set_error_spans :: "('s, 'at) speliuk \<Rightarrow> doc \<Rightarrow> py_error + doc" where
  "set_error_spans S d =
     (let error_detection_doc = error_detection_pipe S (doc_text d);
          error_spans = map (\<lambda>sp. char_span S d (start_char sp) (end_char sp) (span_label sp))
                            (ents error_detection_doc)
      in if None \<in> set error_spans then Inl ValueError
         else Inr (d\<lparr>spans := (spans d)(''speliuk_errors'' \<mapsto> error_spans)\<rparr>))"

text \<open>
  \<open>Speliuk._valid_edit\<close>. Reading \<open>span.text\<close> of \<open>None\<close> raises AttributeError;
  \<open>doc[span.start:span.end][0]\<close> raises IndexError when the slice has no token.
\<close>

definition starts_with_digit :: "('s, 'at) speliuk \<Rightarrow> pystr \<Rightarrow> bool" where
  "starts_with_digit S text = (case text of [] \<Rightarrow> False | c # _ \<Rightarrow> str_isdigit S c)"

definition valid_edit :: "('s, 'at) speliuk \<Rightarrow> doc \<Rightarrow> span option \<Rightarrow> py_error + bool" where
  "valid_edit S d span_opt =
     (case span_opt of
        None \<Rightarrow> Inl AttributeError
      | Some sp \<Rightarrow>
          (let text = span_text sp
           in if starts_with_digit S text then Inr False
              else (case list_get (slice (tokens d) (span_start sp) (span_end sp)) 0 of
                      Inl e \<Rightarrow> Inl e
                    | Inr tok \<Rightarrow>
                        (let span_type = ent_type tok
                         in if prefix (str_lit ''PER'') span_type
                               \<or> span_type = str_lit ''GPE''
                               \<or> span_type = str_lit ''ORG''
                            then Inr False
                            else Inr True))))"

text \<open>
  \<open>Speliuk.correct\<close>. \<open>correct_loop\<close> is its \<open>for\<close> loop over
  \<open>spacy_doc.spans["speliuk_errors"]\<close>, threading the annotated text.
\<close>

record correction =
  corrected_text :: pystr
  annotations :: "annotation list"

fun correct_loop ::
  "('s::linorder, 'at) speliuk \<Rightarrow> doc \<Rightarrow> span option list \<Rightarrow> 'at \<Rightarrow> py_error + 'at" where
  "correct_loop S spacy_doc [] annotated_text = Inr annotated_text"
| "correct_loop S spacy_doc (ent # rest) annotated_text =
     (case valid_edit S spacy_doc ent of
        Inl e \<Rightarrow> Inl e
      | Inr False \<Rightarrow> correct_loop S spacy_doc rest annotated_text
      | Inr True \<Rightarrow>
          (case ent of
             None \<Rightarrow> Inl AttributeError
           | Some sp \<Rightarrow>
               (let start' = start_char sp;
                    end' = end_char sp;
                    error_token = span_text sp;
                    masked_text = get_masked_text spacy_doc sp 5
                in case top_candidate S masked_text error_token of
                     Inl e \<Rightarrow> Inl e
                   | Inr correction \<Rightarrow>
                       (case annotate S annotated_text start' end' correction of
                          Inl e \<Rightarrow> Inl e
                        | Inr annotated_text' \<Rightarrow> correct_loop S spacy_doc rest annotated_text'))))"

definition correct :: "('s::linorder, 'at) speliuk \<Rightarrow> pystr \<Rightarrow> py_error + correction" where
  "correct S text =
     (let spacy_doc = nlp S text
      in case set_error_spans S spacy_doc of
           Inl e \<Rightarrow> Inl e
         | Inr spacy_doc \<Rightarrow>
             (let annotated_text = AnnotatedText S text
              in case spans spacy_doc ''speliuk_errors'' of
                   None \<Rightarrow> Inl KeyError
                 | Some error_spans \<Rightarrow>
                     (case correct_loop S spacy_doc error_spans annotated_text of
                        Inl e \<Rightarrow> Inl e
                      | Inr annotated_text' \<Rightarrow>
                          Inr \<lparr>corrected_text = get_corrected_text S annotated_text',
                               annotations = get_annotations S annotated_text'\<rparr>)))"

section \<open>The evaluation script (\<open>evaluate.py\<close>)\<close>

text \<open>
  The script reads one file, writes one file and starts three processes. The world it runs
  in is a parameter: \<open>file_lines p\<close> is the list of lines that iterating over the file
  opened at \<open>p\<close> yields (each with its line end), or \<open>None\<close> when it cannot be opened;
  \<open>subprocess_exit cmd\<close> is the exit status of the process, or the error raised when it
  cannot be started. The temporary directory is assumed writable.
\<close>

datatype arg = Arg pystr | TmpFile pystr

record eval_world =
  file_lines :: "pystr \<rightharpoonup> pystr list"
  subprocess_exit :: "arg list \<Rightarrow> py_error + int"

text \<open>
  What a run of \<open>main\<close> did: the strings passed to \<open>out.write\<close> in order, the commands
  passed to \<open>subprocess.run\<close> in order, what was printed to stderr, and how it ended.
\<close>

record eval_run =
  written :: "pystr list"
  invoked :: "arg list list"
  printed :: "arg list list"
  outcome :: "py_error + unit"

definition errant_parallel_cmd :: "pystr \<Rightarrow> arg list" where
  "errant_parallel_cmd corrected =
     [Arg (str_lit ''errant_parallel''), Arg (str_lit ''-orig''), TmpFile (str_lit ''unlp.source.tok''),
      Arg (str_lit ''-cor''), Arg corrected, Arg (str_lit ''-out''), TmpFile (str_lit ''unlp.target.m2'')]"

definition errant_compare_cmd :: "pystr \<Rightarrow> arg list" where
  "errant_compare_cmd m2 =
     [Arg (str_lit ''errant_compare''), Arg (str_lit ''-hyp''), TmpFile (str_lit ''unlp.target.m2''),
      Arg (str_lit ''-ref''), Arg m2]"

definition errant_compare_cat_cmd :: "pystr \<Rightarrow> arg list" where
  "errant_compare_cat_cmd m2 =
     [Arg (str_lit ''errant_compare''), Arg (str_lit ''-hyp''), TmpFile (str_lit ''unlp.target.m2''),
      Arg (str_lit ''-ref''), Arg m2, Arg (str_lit ''-ds''), Arg (str_lit ''-cat''), Arg (str_lit ''3'')]"

definition main :: "eval_world \<Rightarrow> pystr \<Rightarrow> pystr \<Rightarrow> eval_run" where
  "main W corrected m2 =
     (case file_lines W m2 of
        None \<Rightarrow> \<lparr>written = [], invoked = [], printed = [], outcome = Inl FileNotFoundError\<rparr>
      | Some f \<Rightarrow>
          (let out = map (drop 2) (filter (prefix (str_lit ''S '')) f);
               cmd1 = errant_parallel_cmd corrected;
               msg = [Arg (str_lit ''Aligned submission: ''), TmpFile (str_lit ''unlp.target.m2'')];
               cmd2 = errant_compare_cmd m2;
               cmd3 = errant_compare_cat_cmd m2
           in case subprocess_exit W cmd1 of
                Inl e \<Rightarrow> \<lparr>written = out, invoked = [cmd1], printed = [], outcome = Inl e\<rparr>
              | Inr returncode \<Rightarrow>
                  if returncode \<noteq> 0
                  then \<lparr>written = out, invoked = [cmd1], printed = [],
                        outcome = Inl (CalledProcessError returncode)\<rparr>
                  else (case subprocess_exit W cmd2 of
                          Inl e \<Rightarrow> \<lparr>written = out, invoked = [cmd1, cmd2], printed = [msg],
                                    outcome = Inl e\<rparr>
                        | Inr _ \<Rightarrow>
                            (case subprocess_exit W cmd3 of
                               Inl e \<Rightarrow> \<lparr>written = out, invoked = [cmd1, cmd2, cmd3],
                                         printed = [msg], outcome = Inl e\<rparr>
                             | Inr _ \<Rightarrow> \<lparr>written = out, invoked = [cmd1, cmd2, cmd3],
                                         printed = [msg], outcome = Inr ()\<rparr>))))"

section \<open>Notions of the specification\<close>

text \<open>
  The detected spans of a text: what \<open>char_span\<close> of the main document returns for each
  entity of the error-detection document.
\<close>

definition detected_spans :: "('s, 'at) speliuk \<Rightarrow> pystr \<Rightarrow> span option list" where
  "detected_spans S text =
     map (\<lambda>sp. char_span S (nlp S text) (start_char sp) (end_char sp) (span_label sp))
         (ents (error_detection_pipe S (doc_text (nlp S text))))"

text \<open>A span has at least one token when the slice of the document it denotes is not empty.\<close>

definition has_token :: "doc \<Rightarrow> span \<Rightarrow> bool" where
  "has_token d sp = (slice (tokens d) (span_start sp) (span_end sp) \<noteq> [])"

text \<open>
  The tag of a span is the entity type of its first token; it is a person, organization or
  geopolitical tag as the source tests it.
\<close>

definition suppressed_tag :: "pystr \<Rightarrow> bool" where
  "suppressed_tag t = (prefix (str_lit ''PER'') t \<or> t = str_lit ''GPE'' \<or> t = str_lit ''ORG'')"

definition tagged_per_org_gpe :: "doc \<Rightarrow> span \<Rightarrow> bool" where
  "tagged_per_org_gpe d sp =
     (case slice (tokens d) (span_start sp) (span_end sp) of
        [] \<Rightarrow> False
      | tok # _ \<Rightarrow> suppressed_tag (ent_type tok))"


text \<open>The correction chosen for a span, and the edit recorded for it.\<close>

definition chosen_correction :: "('s::linorder, 'at) speliuk \<Rightarrow> doc \<Rightarrow> span \<Rightarrow> pystr" where
  "chosen_correction S d sp =
     (case top_candidate S (get_masked_text d sp 5) (span_text sp) of
        Inr c \<Rightarrow> c
      | Inl _ \<Rightarrow> span_text sp)"








text \<open>
  The context of a span, as the specification words it: the last \<open>n\<close> tokens before the
  span and the first \<open>n\<close> tokens after it.
\<close>

definition preceding_tokens :: "doc \<Rightarrow> span \<Rightarrow> nat \<Rightarrow> token list" where
  "preceding_tokens d sp n =
     drop (length (take (span_start sp) (tokens d)) - n) (take (span_start sp) (tokens d))"

definition following_tokens :: "doc \<Rightarrow> span \<Rightarrow> nat \<Rightarrow> token list" where
  "following_tokens d sp n = take n (drop (span_end sp) (tokens d))"

section \<open>A concrete instance\<close>

text \<open>
  A small instance of the parameters, on which the theorems below are exercised: the text
  \<open>a lke tea Bob 2go\<close>, where the detector reports the four words after \<open>a\<close>, the
  main pipeline tags \<open>Bob\<close> as a person, the dictionary suggests \<open>like\<close> and \<open>lake\<close>
  for \<open>lke\<close> and \<open>tea\<close> and \<open>ten\<close> for \<open>tea\<close>, and the language model prefers
  \<open>like\<close>. The annotated text is a plain record of the text and its annotations, which
  refuses overlapping annotations and reconstructs the text by applying the annotations
  from the last to the first.
\<close>

definition demo_text :: pystr where
  "demo_text = str_lit ''a lke tea Bob 2go''"

definition demo_tokens :: "token list" where
  "demo_tokens =
     [\<lparr>tok_text = str_lit ''a'', ent_type = []\<rparr>,
      \<lparr>tok_text = str_lit ''lke'', ent_type = []\<rparr>,
      \<lparr>tok_text = str_lit ''tea'', ent_type = []\<rparr>,
      \<lparr>tok_text = str_lit ''Bob'', ent_type = str_lit ''PER''\<rparr>,
      \<lparr>tok_text = str_lit ''2go'', ent_type = []\<rparr>]"

definition demo_span :: "nat \<Rightarrow> nat \<Rightarrow> nat \<Rightarrow> nat \<Rightarrow> string \<Rightarrow> pystr \<Rightarrow> span" where
  "demo_span i j s e w l =
     \<lparr>span_start = i, span_end = j, start_char = s, end_char = e,
      span_text = str_lit w, span_label = l\<rparr>"

definition demo_nlp :: "pystr \<Rightarrow> doc" where
  "demo_nlp text =
     \<lparr>doc_text = text, tokens = (if text = demo_text then demo_tokens else []),
      ents = [], spans = Map.empty\<rparr>"

definition demo_error_detection_pipe :: "pystr \<Rightarrow> doc" where
  "demo_error_detection_pipe text =
     \<lparr>doc_text = text, tokens = (if text = demo_text then demo_tokens else []),
      ents = (if text = demo_text
              then [demo_span 1 2 2 5 ''lke'' (str_lit ''ERROR''),
                    demo_span 2 3 6 9 ''tea'' (str_lit ''ERROR''),
                    demo_span 3 4 10 13 ''Bob'' (str_lit ''ERROR''),
                    demo_span 4 5 14 17 ''2go'' (str_lit ''ERROR'')]
              else []),
      spans = Map.empty\<rparr>"

definition demo_char_span :: "doc \<Rightarrow> nat \<Rightarrow> nat \<Rightarrow> pystr \<Rightarrow> span option" where
  "demo_char_span d s e l =
     (if (s, e) = (2, 5) then Some (demo_span 1 2 2 5 ''lke'' l)
      else if (s, e) = (6, 9) then Some (demo_span 2 3 6 9 ''tea'' l)
      else if (s, e) = (10, 13) then Some (demo_span 3 4 10 13 ''Bob'' l)
      else if (s, e) = (14, 17) then Some (demo_span 4 5 14 17 ''2go'' l)
      else None)"

definition demo_lookup :: "pystr \<Rightarrow> verbosity \<Rightarrow> nat \<Rightarrow> bool \<Rightarrow> suggest_item list" where
  "demo_lookup token v dist casing =
     (if token = str_lit ''lke''
      then [\<lparr>si_term = str_lit ''like'', si_distance = 1, si_count = 9\<rparr>,
            \<lparr>si_term = str_lit ''lake'', si_distance = 1, si_count = 4\<rparr>]
      else if token = str_lit ''tea''
      then [\<lparr>si_term = str_lit ''tea'', si_distance = 0, si_count = 7\<rparr>,
            \<lparr>si_term = str_lit ''ten'', si_distance = 1, si_count = 8\<rparr>]
      else [])"

definition demo_score :: "pystr \<Rightarrow> int" where
  "demo_score text =
     (if text = str_lit ''a like tea bob 2go'' then - 10
      else if text = str_lit ''a lake tea bob 2go'' then - 30
      else if text = str_lit ''a lke tea bob 2go'' then - 50
      else if text = str_lit ''a lke ten bob 2go'' then - 60
      else - 100)"

definition demo_lower :: "pystr \<Rightarrow> pystr" where
  "demo_lower text = map (\<lambda>c. if 65 \<le> c \<and> c \<le> 90 then c + 32 else c) text"

definition demo_isdigit :: "nat \<Rightarrow> bool" where
  "demo_isdigit c = (48 \<le> c \<and> c \<le> 57)"

record plain_annotated_text =
  at_text :: pystr
  at_annotations :: "annotation list"

definition plain_AnnotatedText :: "pystr \<Rightarrow> plain_annotated_text" where
  "plain_AnnotatedText text = \<lparr>at_text = text, at_annotations = []\<rparr>"

definition plain_overlaps :: "annotation list \<Rightarrow> nat \<Rightarrow> nat \<Rightarrow> bool" where
  "plain_overlaps anns s e = list_ex (\<lambda>b. s < ann_end b \<and> ann_start b < e) anns"

definition plain_annotate ::
  "plain_annotated_text \<Rightarrow> nat \<Rightarrow> nat \<Rightarrow> pystr \<Rightarrow> py_error + plain_annotated_text" where
  "plain_annotate a s e c =
     (if e < s then Inl ValueError
      else if plain_overlaps (at_annotations a) s e then Inl OverlapError
      else Inr (a\<lparr>at_annotations := at_annotations a @
                  [\<lparr>ann_start = s, ann_end = e, source_text = slice (at_text a) s e,
                    suggestions = [c]\<rparr>]\<rparr>))"

definition plain_apply :: "annotation \<Rightarrow> pystr \<Rightarrow> pystr" where
  "plain_apply b text =
     take (ann_start b) text
     @ (case suggestions b of [] \<Rightarrow> source_text b | c # _ \<Rightarrow> c)
     @ drop (ann_end b) text"

definition plain_get_corrected_text :: "plain_annotated_text \<Rightarrow> pystr" where
  "plain_get_corrected_text a =
     fold plain_apply (rev (sort_key ann_start (at_annotations a))) (at_text a)"

definition demo_speliuk :: "(int, plain_annotated_text) speliuk" where
  "demo_speliuk =
     \<lparr>nlp = demo_nlp,
      error_detection_pipe = demo_error_detection_pipe,
      kenlm_score = demo_score,
      sym_spell_lookup = demo_lookup,
      str_lower = demo_lower,
      str_isdigit = demo_isdigit,
      char_span = demo_char_span,
      AnnotatedText = plain_AnnotatedText,
      annotate = plain_annotate,
      get_corrected_text = plain_get_corrected_text,
      get_annotations = at_annotations\<rparr>"

text \<open>
  The same instance, except that the tokens of the main document do not match the detected
  word \<open>lke\<close>, so that \<open>char_span\<close> returns \<open>None\<close> for it.
\<close>

definition misaligned_speliuk :: "(int, plain_annotated_text) speliuk" where
  "misaligned_speliuk =
     demo_speliuk\<lparr>char_span :=
       (\<lambda>d s e l. if (s, e) = (2, 5) then None else demo_char_span d s e l)\<rparr>"





text \<open>A document whose first token is the text of the placeholder.\<close>

definition mask_doc :: doc where
  "mask_doc =
     \<lparr>doc_text = str_lit ''<mask> lke tea'',
      tokens = [\<lparr>tok_text = str_lit ''<mask>'', ent_type = []\<rparr>,
                \<lparr>tok_text = str_lit ''lke'', ent_type = []\<rparr>,
                \<lparr>tok_text = str_lit ''tea'', ent_type = []\<rparr>],
      ents = [], spans = Map.empty\<rparr>"

text \<open>
  The instance with a language model that tells the text \<open>like like tea\<close> from the others.
\<close>

definition mask_score :: "pystr \<Rightarrow> int" where
  "mask_score text =
     (if text = str_lit ''like like tea'' then - 7
      else if text = str_lit ''lke lke tea'' then - 9
      else - 100)"

definition mask_speliuk :: "(int, plain_annotated_text) speliuk" where
  "mask_speliuk = demo_speliuk\<lparr>kenlm_score := mask_score\<rparr>"

definition demo_world :: eval_world where
  "demo_world =
     \<lparr>file_lines = [str_lit ''gold.m2'' \<mapsto>
                      [str_lit ''S a lke tea'' @ [10],
                       str_lit ''A 1 2|||Spelling|||like|||REQUIRED|||-NONE-|||0'' @ [10],
                       [10],
                       str_lit ''S ok'' @ [10]]],
      subprocess_exit = (\<lambda>cmd. Inr 0)\<rparr>"

section \<open>Dictionaries and sorting\<close>



lemma dict_set_keys: "fst ` set (dict_set d k v) = insert k (fst ` set d)"
  by (induction d) force+

lemma dict_set_distinct: "distinct (map fst d) \<Longrightarrow> distinct (map fst (dict_set d k v))"
  by (induction d) (auto simp: dict_set_keys)

lemma dict_set_fresh: "k \<notin> fst ` set d \<Longrightarrow> dict_set d k v = d @ [(k, v)]"
  by (induction d) auto

lemma dict_set_mem: "p \<in> set (dict_set d k v) \<Longrightarrow> p = (k, v) \<or> p \<in> set d"
  by (induction d) (auto split: if_splits)

lemma dict_of_items_distinct_aux:
  "distinct (map fst (d @ items)) \<Longrightarrow> fold (\<lambda>(k, v) d. dict_set d k v) items d = d @ items"
proof (induction items arbitrary: d)
  case Nil then show ?case by simp
next
  case (Cons a items)
  obtain k v where a: "a = (k, v)" by (cases a)
  from Cons.prems have "k \<notin> fst ` set d" by (auto simp: a)
  then have "dict_set d k v = d @ [(k, v)]" by (rule dict_set_fresh)
  moreover have "distinct (map fst ((d @ [(k, v)]) @ items))" using Cons.prems by (simp add: a)
  ultimately show ?case using Cons.IH[of "d @ [(k, v)]"] by (simp add: a)
qed

lemma dict_of_items_distinct: "distinct (map fst items) \<Longrightarrow> dict_of_items items = items"
  using dict_of_items_distinct_aux[of "[]" items] by (simp add: dict_of_items_def)

lemma rerank_loop_keys:
  "fst ` set (rerank_loop S m cs d) = set cs \<union> fst ` set d"
  by (induction cs arbitrary: d) (auto simp: dict_set_keys)

lemma rerank_loop_distinct:
  "distinct (map fst d) \<Longrightarrow> distinct (map fst (rerank_loop S m cs d))"
  by (induction cs arbitrary: d) (auto simp: dict_set_distinct)

lemma rerank_loop_values:
  "\<forall>p \<in> set d. snd p = masked_score S m (fst p) \<Longrightarrow>
   p \<in> set (rerank_loop S m cs d) \<Longrightarrow> snd p = masked_score S m (fst p)"
proof (induction cs arbitrary: d)
  case Nil then show ?case by simp
next
  case (Cons c cs)
  have "\<forall>p \<in> set (dict_set d c (masked_score S m c)). snd p = masked_score S m (fst p)"
    using Cons.prems(1) dict_set_mem by fastforce
  from Cons.IH[OF this] Cons.prems(2) show ?case by simp
qed


lemma py_sorted_reverse_set: "set (py_sorted_reverse f xs) = set xs"
  by (simp add: py_sorted_reverse_def)

lemma py_sorted_reverse_desc: "sorted_wrt (\<lambda>a b. f a \<ge> f b) (py_sorted_reverse f xs)"
proof -
  have "sorted (map f (sort_key f (rev xs)))" by (rule sorted_sort_key)
  then have "sorted_wrt (\<lambda>a b. f a \<le> f b) (sort_key f (rev xs))"
    by (simp add: sorted_map)
  then show ?thesis
    by (simp add: py_sorted_reverse_def sorted_wrt_rev)
qed

lemma py_sorted_reverse_stable:
  "filter (\<lambda>y. f y = k) (py_sorted_reverse f xs) = filter (\<lambda>y. f y = k) xs"
  by (simp add: py_sorted_reverse_def rev_filter[symmetric] sort_key_stable)

lemma py_sorted_reverse_distinct: "distinct (map g (py_sorted_reverse f xs)) = distinct (map g xs)"
  by (simp add: py_sorted_reverse_def distinct_map)


lemma kenlm_rerank_eq:
  "kenlm_rerank S m cs = py_sorted_reverse snd (rerank_loop S m cs [])"
  by (simp add: kenlm_rerank_def dict_of_items_distinct py_sorted_reverse_distinct
      rerank_loop_distinct)

lemma kenlm_rerank_keys: "fst ` set (kenlm_rerank S m cs) = set cs"
  by (simp add: kenlm_rerank_eq py_sorted_reverse_set rerank_loop_keys)

lemma kenlm_rerank_distinct: "distinct (map fst (kenlm_rerank S m cs))"
  by (simp add: kenlm_rerank_eq py_sorted_reverse_distinct rerank_loop_distinct)

lemma kenlm_rerank_values:
  "p \<in> set (kenlm_rerank S m cs) \<Longrightarrow> snd p = masked_score S m (fst p)"
  using rerank_loop_values[of "[]" S m p cs]
  by (simp add: kenlm_rerank_eq py_sorted_reverse_set)

lemma kenlm_rerank_desc: "sorted_wrt (\<lambda>a b. snd b \<le> snd a) (kenlm_rerank S m cs)"
  by (simp add: kenlm_rerank_eq py_sorted_reverse_desc)

lemma kenlm_rerank_get:
  assumes "c \<in> set cs"
  shows "dict_get (kenlm_rerank S m cs) c = Inr (masked_score S m c)"
proof -
  from assms obtain v where mem: "(c, v) \<in> set (kenlm_rerank S m cs)"
    using kenlm_rerank_keys[of S m cs] by force
  from kenlm_rerank_values[OF mem] have v: "v = masked_score S m c" by simp
  from mem have "map_of (kenlm_rerank S m cs) c = Some v"
    using kenlm_rerank_distinct[of S m cs] by simp
  then show ?thesis by (simp add: dict_get_def v)
qed

lemma masked_score_eq:
  "masked_score S m c = kenlm_score S (str_lower S (py_replace m MASK_TOKEN c))"
  by (simp add: masked_score_def)

lemma token_scored: "token \<in> set (scored_candidates S token)"
  by (simp add: scored_candidates_def Let_def)

lemma kenlm_rerank_head:
  assumes "cs \<noteq> []"
  shows "\<exists>p ps. kenlm_rerank S m cs = p # ps \<and> fst p \<in> set cs
           \<and> snd p = masked_score S m (fst p)
           \<and> (\<forall>c \<in> set cs. masked_score S m c \<le> snd p)"
proof -
  have ne: "kenlm_rerank S m cs \<noteq> []"
    using assms kenlm_rerank_keys[of S m cs] by auto
  then obtain p ps where K: "kenlm_rerank S m cs = p # ps" by (cases "kenlm_rerank S m cs") auto
  have p_in: "p \<in> set (kenlm_rerank S m cs)" by (simp add: K)
  have 1: "fst p \<in> set cs" using p_in kenlm_rerank_keys[of S m cs] by force
  have 2: "snd p = masked_score S m (fst p)" using p_in by (rule kenlm_rerank_values)
  have 3: "masked_score S m c \<le> snd p" if "c \<in> set cs" for c
  proof -
    from that obtain q where q: "q \<in> set (kenlm_rerank S m cs)" "fst q = c"
      using kenlm_rerank_keys[of S m cs] by force
    have sq: "snd q = masked_score S m c" using kenlm_rerank_values[OF q(1)] q(2) by simp
    have "snd q \<le> snd p"
    proof (cases "q = p")
      case True then show ?thesis by simp
    next
      case False
      with q(1) K have "q \<in> set ps" by simp
      with kenlm_rerank_desc[of S m cs] K show ?thesis by simp
    qed
    with sq show ?thesis by simp
  qed
  from K 1 2 3 show ?thesis by blast
qed

lemma top_candidate_unfold:
  "\<exists>p ps. kenlm_rerank S m (scored_candidates S token) = p # ps
      \<and> fst p \<in> set (scored_candidates S token)
      \<and> snd p = masked_score S m (fst p)
      \<and> (\<forall>c \<in> set (scored_candidates S token). masked_score S m c \<le> snd p)
      \<and> top_candidate S m token
          = (if masked_score S m token = snd p then Inr token else Inr (fst p))"
proof -
  let ?cs = "scored_candidates S token"
  have tok: "token \<in> set ?cs" by (rule token_scored)
  then have "?cs \<noteq> []" by auto
  from kenlm_rerank_head[OF this, of S m]
  obtain p ps where K: "kenlm_rerank S m ?cs = p # ps"
    and p1: "fst p \<in> set ?cs"
    and p2: "snd p = masked_score S m (fst p)"
    and p3: "\<forall>c \<in> set ?cs. masked_score S m c \<le> snd p"
    by blast
  have g0: "list_get (map fst (kenlm_rerank S m ?cs)) 0 = Inr (fst p)"
    by (simp add: K list_get_def)
  have g1: "dict_get (kenlm_rerank S m ?cs) token = Inr (masked_score S m token)"
    using tok by (rule kenlm_rerank_get)
  have g2: "dict_get (kenlm_rerank S m ?cs) (fst p) = Inr (masked_score S m (fst p))"
    using p1 by (rule kenlm_rerank_get)
  have "top_candidate S m token =
      (if masked_score S m token = snd p then Inr token else Inr (fst p))"
    by (simp add: top_candidate_def Let_def g0 g1 g2 p2)
  with K p1 p2 p3 show ?thesis by blast
qed

lemma top_candidate_total: "\<exists>r. top_candidate S m token = Inr r"
  using top_candidate_unfold[of S m token] by (auto split: if_splits)

text \<open>
  Claim C6. \<open>_kenlm_rerank\<close> returns a dictionary whose keys are the candidates, in which
  each candidate has the language-model score of the lower-cased text obtained by
  replacing the placeholder in the masked text with that candidate, and whose entries are
  ordered by descending score.
\<close>

theorem kenlm_rerank_scores_descending:
  "fst ` set (kenlm_rerank S masked_text candidates) = set candidates
   \<and> distinct (map fst (kenlm_rerank S masked_text candidates))
   \<and> (\<forall>c \<in> set candidates.
         dict_get (kenlm_rerank S masked_text candidates) c
           = Inr (kenlm_score S (str_lower S (py_replace masked_text MASK_TOKEN c))))
   \<and> sorted_wrt (\<lambda>a b. snd b \<le> snd a) (kenlm_rerank S masked_text candidates)"
  by (simp add: kenlm_rerank_keys kenlm_rerank_distinct kenlm_rerank_get kenlm_rerank_desc
      masked_score_eq)

theorem kenlm_rerank_scores_descending_witness:
  "kenlm_rerank demo_speliuk (str_lit ''a <mask> tea Bob 2go'')
      [str_lit ''lake'', str_lit ''like'', str_lit ''lke'']
     = [(str_lit ''like'', - 10), (str_lit ''lake'', - 30), (str_lit ''lke'', - 50)]
   \<and> dict_get (kenlm_rerank demo_speliuk (str_lit ''a <mask> tea Bob 2go'')
         [str_lit ''lake'', str_lit ''like'', str_lit ''lke'']) (str_lit ''lake'')
     = Inr (kenlm_score demo_speliuk (str_lower demo_speliuk
         (py_replace (str_lit ''a <mask> tea Bob 2go'') MASK_TOKEN (str_lit ''lake''))))"
proof -
  have "kenlm_rerank demo_speliuk (str_lit ''a <mask> tea Bob 2go'')
      [str_lit ''lake'', str_lit ''like'', str_lit ''lke'']
     = [(str_lit ''like'', - 10), (str_lit ''lake'', - 30), (str_lit ''lke'', - 50)]"
    by code_simp
  moreover have "str_lit ''lake'' \<in> set [str_lit ''lake'', str_lit ''like'', str_lit ''lke'']"
    by simp
  ultimately show ?thesis
    using kenlm_rerank_scores_descending[of demo_speliuk "str_lit ''a <mask> tea Bob 2go''"
        "[str_lit ''lake'', str_lit ''like'', str_lit ''lke'']"]
    by blast
qed

text \<open>
  Claim C1. For every masked context and token, \<open>top_candidate\<close> returns a candidate whose
  language-model score is the highest among the scored candidates, and it returns the
  original token whenever the token's score equals that highest score.
\<close>

theorem top_candidate_highest_score:
  "\<exists>r. top_candidate S masked_text token = Inr r
       \<and> r \<in> set (scored_candidates S token)
       \<and> (\<forall>c \<in> set (scored_candidates S token).
             masked_score S masked_text c \<le> masked_score S masked_text r)
       \<and> (masked_score S masked_text token = masked_score S masked_text r \<longrightarrow> r = token)"
proof -
  from top_candidate_unfold[of S masked_text token]
  obtain p where p1: "fst p \<in> set (scored_candidates S token)"
    and p2: "snd p = masked_score S masked_text (fst p)"
    and p3: "\<forall>c \<in> set (scored_candidates S token). masked_score S masked_text c \<le> snd p"
    and res: "top_candidate S masked_text token
          = (if masked_score S masked_text token = snd p then Inr token else Inr (fst p))"
    by blast
  show ?thesis
  proof (cases "masked_score S masked_text token = snd p")
    case True
    with res p3 token_scored[of token S] show ?thesis by simp
  next
    case False
    with res p1 p2 p3 show ?thesis by simp
  qed
qed

theorem top_candidate_highest_score_witness:
  "top_candidate demo_speliuk (str_lit ''a <mask> tea Bob 2go'') (str_lit ''lke'') = Inr (str_lit ''like'')
   \<and> str_lit ''like'' \<in> set (scored_candidates demo_speliuk (str_lit ''lke''))
   \<and> masked_score demo_speliuk (str_lit ''a <mask> tea Bob 2go'') (str_lit ''lake'')
       \<le> masked_score demo_speliuk (str_lit ''a <mask> tea Bob 2go'') (str_lit ''like'')"
proof -
  have e: "top_candidate demo_speliuk (str_lit ''a <mask> tea Bob 2go'') (str_lit ''lke'') = Inr (str_lit ''like'')"
    by code_simp
  have m: "str_lit ''lake'' \<in> set (scored_candidates demo_speliuk (str_lit ''lke''))"
    by code_simp
  show ?thesis
    using top_candidate_highest_score[of demo_speliuk "str_lit ''a <mask> tea Bob 2go''" "str_lit ''lke''"] e m
    by auto
qed

text \<open>
  Claim C5. The candidates scored by \<open>top_candidate\<close> are the first (at most 5) terms of the
  dictionary lookup made with verbosity CLOSEST, maximum edit distance 2 and casing
  transfer, followed by the original token when it is not one of them; the token is always
  among them, and the keys of the re-ranked dictionary that \<open>top_candidate\<close> chooses from
  are exactly these candidates.
\<close>

theorem scored_candidates_suggestions_and_token:
  "scored_candidates S token =
     take 5 (map si_term (sym_spell_lookup S token Verbosity_CLOSEST 2 True))
       @ (if token \<in> set (take 5 (map si_term (sym_spell_lookup S token Verbosity_CLOSEST 2 True)))
          then [] else [token])
   \<and> length (take 5 (map si_term (sym_spell_lookup S token Verbosity_CLOSEST 2 True))) \<le> 5
   \<and> token \<in> set (scored_candidates S token)
   \<and> fst ` set (kenlm_rerank S masked_text (scored_candidates S token))
       = set (scored_candidates S token)
   \<and> top_candidate S masked_text token
       = (case kenlm_rerank S masked_text (scored_candidates S token) of
            [] \<Rightarrow> Inl IndexError
          | (top_cand, top_score) # _ \<Rightarrow>
              if masked_score S masked_text token = top_score then Inr token else Inr top_cand)"
proof -
  let ?cs = "scored_candidates S token"
  from top_candidate_unfold[of S masked_text token]
  obtain p ps where K: "kenlm_rerank S masked_text ?cs = p # ps"
    and res: "top_candidate S masked_text token
          = (if masked_score S masked_text token = snd p then Inr token else Inr (fst p))"
    by blast
  have last: "top_candidate S masked_text token
       = (case kenlm_rerank S masked_text ?cs of
            [] \<Rightarrow> Inl IndexError
          | (top_cand, top_score) # _ \<Rightarrow>
              if masked_score S masked_text token = top_score then Inr token else Inr top_cand)"
    by (cases p) (simp add: res K)
  have first: "?cs = take 5 (map si_term (sym_spell_lookup S token Verbosity_CLOSEST 2 True))
       @ (if token \<in> set (take 5 (map si_term (sym_spell_lookup S token Verbosity_CLOSEST 2 True)))
          then [] else [token])"
    by (simp add: scored_candidates_def symspell_candidates_def Let_def)
  show ?thesis
    using first token_scored[of token S] last kenlm_rerank_keys[of S masked_text ?cs] by simp
qed

theorem scored_candidates_suggestions_and_token_witness:
  "scored_candidates demo_speliuk (str_lit ''lke'')
     = [str_lit ''like'', str_lit ''lake'', str_lit ''lke'']
   \<and> scored_candidates demo_speliuk (str_lit ''tea'') = [str_lit ''tea'', str_lit ''ten'']
   \<and> fst ` set (kenlm_rerank demo_speliuk (str_lit ''a <mask> tea Bob 2go'')
         (scored_candidates demo_speliuk (str_lit ''lke'')))
       = set (scored_candidates demo_speliuk (str_lit ''lke''))"
proof -
  have 1: "scored_candidates demo_speliuk (str_lit ''lke'')
     = [str_lit ''like'', str_lit ''lake'', str_lit ''lke'']"
    by code_simp
  have 2: "scored_candidates demo_speliuk (str_lit ''tea'') = [str_lit ''tea'', str_lit ''ten'']"
    by code_simp
  show ?thesis
    using scored_candidates_suggestions_and_token[of demo_speliuk "str_lit ''lke''"
        "str_lit ''a <mask> tea Bob 2go''"] 1 2
    by blast
qed


section \<open>Suppression, masking and the evaluation script\<close>

lemma list_get_0: "list_get xs 0 = (case xs of [] \<Rightarrow> Inl IndexError | x # _ \<Rightarrow> Inr x)"
  by (cases xs) (simp_all add: list_get_def)

lemma valid_edit_Some:
  "valid_edit S d (Some sp) =
     (if starts_with_digit S (span_text sp) then Inr False
      else if \<not> has_token d sp then Inl IndexError
      else Inr (\<not> tagged_per_org_gpe d sp))"
  by (simp add: valid_edit_def Let_def list_get_0 has_token_def tagged_per_org_gpe_def
      suppressed_tag_def split: list.split)

lemma valid_edit_None: "valid_edit S d None = Inl AttributeError"
  by (simp add: valid_edit_def)

lemma tagged_has_token: "tagged_per_org_gpe d sp \<Longrightarrow> has_token d sp"
  by (auto simp: tagged_per_org_gpe_def has_token_def split: list.splits)

text \<open>
  Claim C3. \<open>_valid_edit\<close> returns False for a span exactly when the span's text starts
  with a digit or the span is tagged (through the entity type of its first token) as a
  person, organization or geopolitical entity; every other span that has a token is
  accepted, that is, \<open>_valid_edit\<close> returns True for it.
\<close>

theorem valid_edit_rejects_iff:
  "(valid_edit S d (Some sp) = Inr False
      \<longleftrightarrow> starts_with_digit S (span_text sp) \<or> tagged_per_org_gpe d sp)
   \<and> (has_token d sp \<longrightarrow>
        (valid_edit S d (Some sp) = Inr True
           \<longleftrightarrow> \<not> (starts_with_digit S (span_text sp) \<or> tagged_per_org_gpe d sp)))"
  using tagged_has_token[of d sp] by (auto simp: valid_edit_Some)

theorem valid_edit_rejects_iff_witness:
  "valid_edit demo_speliuk (demo_nlp demo_text) (Some (demo_span 4 5 14 17 ''2go'' [])) = Inr False
   \<and> starts_with_digit demo_speliuk (span_text (demo_span 4 5 14 17 ''2go'' []))
   \<and> valid_edit demo_speliuk (demo_nlp demo_text) (Some (demo_span 3 4 10 13 ''Bob'' [])) = Inr False
   \<and> tagged_per_org_gpe (demo_nlp demo_text) (demo_span 3 4 10 13 ''Bob'' [])
   \<and> has_token (demo_nlp demo_text) (demo_span 1 2 2 5 ''lke'' [])
   \<and> valid_edit demo_speliuk (demo_nlp demo_text) (Some (demo_span 1 2 2 5 ''lke'' [])) = Inr True"
proof -
  have a: "starts_with_digit demo_speliuk (span_text (demo_span 4 5 14 17 ''2go'' []))"
    by code_simp
  have b: "tagged_per_org_gpe (demo_nlp demo_text) (demo_span 3 4 10 13 ''Bob'' [])"
    by code_simp
  have c: "has_token (demo_nlp demo_text) (demo_span 1 2 2 5 ''lke'' [])"
    by code_simp
  have d: "\<not> starts_with_digit demo_speliuk (span_text (demo_span 1 2 2 5 ''lke'' []))"
    by code_simp
  have e: "\<not> tagged_per_org_gpe (demo_nlp demo_text) (demo_span 1 2 2 5 ''lke'' [])"
    by code_simp
  show ?thesis
    using a b c d e
      valid_edit_rejects_iff[of demo_speliuk "demo_nlp demo_text" "demo_span 4 5 14 17 ''2go'' []"]
      valid_edit_rejects_iff[of demo_speliuk "demo_nlp demo_text" "demo_span 3 4 10 13 ''Bob'' []"]
      valid_edit_rejects_iff[of demo_speliuk "demo_nlp demo_text" "demo_span 1 2 2 5 ''lke'' []"]
    by blast
qed

text \<open>
  Claim C4. For a span of the document, \<open>get_masked_text\<close> is the left context, the
  placeholder between two spaces, and the right context, where the left context is the
  space-joined texts of exactly the \<open>min(span.start, 5)\<close> tokens preceding the span and the
  right context those of exactly the \<open>min(number of tokens after the span, 5)\<close> tokens
  following it.
\<close>

theorem get_masked_text_window:
  assumes "span_start sp \<le> length (tokens d)"
  shows "get_masked_text d sp 5 =
           py_join (str_lit '' '') (map tok_text (preceding_tokens d sp (min (span_start sp) 5)))
           @ str_lit '' <mask> '' @
           py_join (str_lit '' '')
             (map tok_text (following_tokens d sp (min (length (tokens d) - span_end sp) 5)))
         \<and> length (preceding_tokens d sp (min (span_start sp) 5)) = min (span_start sp) 5
         \<and> length (following_tokens d sp (min (length (tokens d) - span_end sp) 5))
             = min (length (tokens d) - span_end sp) 5"
proof -
  have l: "slice (tokens d) (if 5 \<le> span_start sp then span_start sp - 5 else 0) (span_start sp)
      = preceding_tokens d sp (min (span_start sp) 5)"
    using assms by (auto simp: slice_def preceding_tokens_def drop_take min_def)
  have r: "slice (tokens d) (span_end sp) (span_end sp + 5)
      = following_tokens d sp (min (length (tokens d) - span_end sp) 5)"
    by (simp add: slice_def following_tokens_def min_def)
  have m: "str_lit '' '' @ MASK_TOKEN @ str_lit '' '' = str_lit '' <mask> ''"
    by (simp add: str_lit_def MASK_TOKEN_def)
  have "get_masked_text d sp 5 =
           py_join (str_lit '' '') (map tok_text (preceding_tokens d sp (min (span_start sp) 5)))
           @ str_lit '' <mask> '' @
           py_join (str_lit '' '')
             (map tok_text (following_tokens d sp (min (length (tokens d) - span_end sp) 5)))"
    unfolding get_masked_text_def Let_def l r m ..
  moreover have "length (preceding_tokens d sp (min (span_start sp) 5)) = min (span_start sp) 5"
    using assms by (simp add: preceding_tokens_def min_def)
  moreover have "length (following_tokens d sp (min (length (tokens d) - span_end sp) 5))
             = min (length (tokens d) - span_end sp) 5"
    by (simp add: following_tokens_def)
  ultimately show ?thesis by blast
qed


theorem get_masked_text_window_witness:
  "span_start (demo_span 1 2 2 5 ''lke'' []) \<le> length (tokens (demo_nlp demo_text))
   \<and> get_masked_text (demo_nlp demo_text) (demo_span 1 2 2 5 ''lke'' []) 5
       = str_lit ''a <mask> tea Bob 2go''
   \<and> length (preceding_tokens (demo_nlp demo_text) (demo_span 1 2 2 5 ''lke'' [])
        (min (span_start (demo_span 1 2 2 5 ''lke'' [])) 5)) = 1
   \<and> length (following_tokens (demo_nlp demo_text) (demo_span 1 2 2 5 ''lke'' [])
        (min (length (tokens (demo_nlp demo_text)) - span_end (demo_span 1 2 2 5 ''lke'' [])) 5)) = 3"
proof -
  have h: "span_start (demo_span 1 2 2 5 ''lke'' []) \<le> length (tokens (demo_nlp demo_text))"
    by code_simp
  have v: "get_masked_text (demo_nlp demo_text) (demo_span 1 2 2 5 ''lke'' []) 5
       = str_lit ''a <mask> tea Bob 2go''"
    by code_simp
  have s: "min (span_start (demo_span 1 2 2 5 ''lke'' [])) 5 = 1"
    by code_simp
  have e: "min (length (tokens (demo_nlp demo_text)) - span_end (demo_span 1 2 2 5 ''lke'' [])) 5 = 3"
    by code_simp
  show ?thesis
    using get_masked_text_window[OF h] h v s e by simp
qed

text \<open>
  Claim C7. Given a readable gold file, \<open>main\<close> writes to the temporary source file, in
  order, every line that begins with \<open>S \<close> without these two characters. When the aligner
  exits with status 0 and the two scorer processes can be started, the processes it starts
  are, in this order, \<open>errant_parallel -orig <tmp>/unlp.source.tok -cor <corrected> -out
  <tmp>/unlp.target.m2\<close>, \<open>errant_compare -hyp <tmp>/unlp.target.m2 -ref <m2>\<close> and the same
  with \<open>-ds -cat 3\<close> added, and it ends normally. A run consists of these writes,
  invocations and one message; it has no score of its own.
\<close>

theorem main_extracts_source_and_invokes_errant:
  assumes "file_lines W m2 = Some ls"
    and "subprocess_exit W
           [Arg (str_lit ''errant_parallel''), Arg (str_lit ''-orig''),
            TmpFile (str_lit ''unlp.source.tok''), Arg (str_lit ''-cor''), Arg corrected,
            Arg (str_lit ''-out''), TmpFile (str_lit ''unlp.target.m2'')] = Inr 0"
    and "subprocess_exit W
           [Arg (str_lit ''errant_compare''), Arg (str_lit ''-hyp''),
            TmpFile (str_lit ''unlp.target.m2''), Arg (str_lit ''-ref''), Arg m2] = Inr rc2"
    and "subprocess_exit W
           [Arg (str_lit ''errant_compare''), Arg (str_lit ''-hyp''),
            TmpFile (str_lit ''unlp.target.m2''), Arg (str_lit ''-ref''), Arg m2,
            Arg (str_lit ''-ds''), Arg (str_lit ''-cat''), Arg (str_lit ''3'')] = Inr rc3"
  shows "written (main W corrected m2)
           = map (drop 2) (filter (\<lambda>line. take 2 line = str_lit ''S '') ls)
       \<and> invoked (main W corrected m2)
           = [[Arg (str_lit ''errant_parallel''), Arg (str_lit ''-orig''),
               TmpFile (str_lit ''unlp.source.tok''), Arg (str_lit ''-cor''), Arg corrected,
               Arg (str_lit ''-out''), TmpFile (str_lit ''unlp.target.m2'')],
              [Arg (str_lit ''errant_compare''), Arg (str_lit ''-hyp''),
               TmpFile (str_lit ''unlp.target.m2''), Arg (str_lit ''-ref''), Arg m2],
              [Arg (str_lit ''errant_compare''), Arg (str_lit ''-hyp''),
               TmpFile (str_lit ''unlp.target.m2''), Arg (str_lit ''-ref''), Arg m2,
               Arg (str_lit ''-ds''), Arg (str_lit ''-cat''), Arg (str_lit ''3'')]]
       \<and> printed (main W corrected m2)
           = [[Arg (str_lit ''Aligned submission: ''), TmpFile (str_lit ''unlp.target.m2'')]]
       \<and> outcome (main W corrected m2) = Inr ()"
proof -
  have p: "prefix (str_lit ''S '') line \<longleftrightarrow> take 2 line = str_lit ''S ''" for line
    by (auto simp: str_lit_def prefix_def take_Suc_conv_app_nth numeral_2_eq_2 split: list.splits)
       (metis append_Cons append_Nil append_take_drop_id)
  have q: "prefix (str_lit ''S '') = (\<lambda>line. take 2 line = str_lit ''S '')"
    by (rule ext) (rule p)
  show ?thesis
    using assms
    by (simp add: main_def Let_def q errant_parallel_cmd_def errant_compare_cmd_def
        errant_compare_cat_cmd_def)
qed

theorem main_extracts_source_and_invokes_errant_witness:
  "file_lines demo_world (str_lit ''gold.m2'')
      = Some [str_lit ''S a lke tea'' @ [10],
              str_lit ''A 1 2|||Spelling|||like|||REQUIRED|||-NONE-|||0'' @ [10],
              [10],
              str_lit ''S ok'' @ [10]]
   \<and> written (main demo_world (str_lit ''out.txt'') (str_lit ''gold.m2''))
      = [str_lit ''a lke tea'' @ [10], str_lit ''ok'' @ [10]]
   \<and> invoked (main demo_world (str_lit ''out.txt'') (str_lit ''gold.m2''))
      = [[Arg (str_lit ''errant_parallel''), Arg (str_lit ''-orig''),
          TmpFile (str_lit ''unlp.source.tok''), Arg (str_lit ''-cor''),
          Arg (str_lit ''out.txt''), Arg (str_lit ''-out''),
          TmpFile (str_lit ''unlp.target.m2'')],
         [Arg (str_lit ''errant_compare''), Arg (str_lit ''-hyp''),
          TmpFile (str_lit ''unlp.target.m2''), Arg (str_lit ''-ref''),
          Arg (str_lit ''gold.m2'')],
         [Arg (str_lit ''errant_compare''), Arg (str_lit ''-hyp''),
          TmpFile (str_lit ''unlp.target.m2''), Arg (str_lit ''-ref''),
          Arg (str_lit ''gold.m2''), Arg (str_lit ''-ds''), Arg (str_lit ''-cat''),
          Arg (str_lit ''3'')]]
   \<and> outcome (main demo_world (str_lit ''out.txt'') (str_lit ''gold.m2'')) = Inr ()"
proof -
  have f: "file_lines demo_world (str_lit ''gold.m2'')
      = Some [str_lit ''S a lke tea'' @ [10],
              str_lit ''A 1 2|||Spelling|||like|||REQUIRED|||-NONE-|||0'' @ [10],
              [10],
              str_lit ''S ok'' @ [10]]"
    by (simp add: demo_world_def)
  have e: "subprocess_exit demo_world cmd = Inr 0" for cmd
    by (simp add: demo_world_def)
  have w: "map (drop 2) (filter (\<lambda>line. take 2 line = str_lit ''S '')
             [str_lit ''S a lke tea'' @ [10],
              str_lit ''A 1 2|||Spelling|||like|||REQUIRED|||-NONE-|||0'' @ [10],
              [10],
              str_lit ''S ok'' @ [10]])
         = [str_lit ''a lke tea'' @ [10], str_lit ''ok'' @ [10]]"
    by (simp add: str_lit_def)
  show ?thesis
    using main_extracts_source_and_invokes_errant[OF f e e e] f w by simp
qed

section \<open>The correction loop\<close>

lemma set_error_spans_eq:
  "set_error_spans S (nlp S t) =
     (if None \<in> set (detected_spans S t) then Inl ValueError
      else Inr ((nlp S t)\<lparr>spans := (spans (nlp S t))(''speliuk_errors'' \<mapsto> detected_spans S t)\<rparr>))"
  by (simp add: set_error_spans_def detected_spans_def Let_def)

lemma top_candidate_chosen:
  "top_candidate S (get_masked_text d sp 5) (span_text sp) = Inr (chosen_correction S d sp)"
  using top_candidate_total[of S "get_masked_text d sp 5" "span_text sp"]
  by (auto simp: chosen_correction_def)

lemma correct_loop_Cons:
  "correct_loop S d (ent # rest) a =
     (case ent of
        None \<Rightarrow> Inl AttributeError
      | Some sp \<Rightarrow>
          (case valid_edit S d (Some sp) of
             Inl e \<Rightarrow> Inl e
           | Inr False \<Rightarrow> correct_loop S d rest a
           | Inr True \<Rightarrow>
               (case annotate S a (start_char sp) (end_char sp) (chosen_correction S d sp) of
                  Inl e \<Rightarrow> Inl e
                | Inr a' \<Rightarrow> correct_loop S d rest a')))"
  by (cases ent) (simp_all add: valid_edit_None top_candidate_chosen Let_def
      split: sum.split bool.split)

lemma valid_edit_tokens:
  "tokens d' = tokens d \<Longrightarrow> valid_edit S d' s = valid_edit S d s"
  by (cases s) (simp_all add: valid_edit_def)

lemma chosen_correction_tokens:
  "tokens d' = tokens d \<Longrightarrow> chosen_correction S d' sp = chosen_correction S d sp"
  by (simp add: chosen_correction_def get_masked_text_def)

lemma correct_loop_tokens:
  "tokens d' = tokens d \<Longrightarrow> correct_loop S d' es a = correct_loop S d es a"
proof (induction es arbitrary: a)
  case Nil
  show ?case by simp
next
  case (Cons ent rest)
  show ?case
    by (simp only: correct_loop_Cons valid_edit_tokens[OF Cons.prems]
        chosen_correction_tokens[OF Cons.prems] Cons.IH[OF Cons.prems])
qed

lemma correct_eq:
  "correct S t =
     (if None \<in> set (detected_spans S t) then Inl ValueError
      else case correct_loop S (nlp S t) (detected_spans S t) (AnnotatedText S t) of
             Inl e \<Rightarrow> Inl e
           | Inr a \<Rightarrow> Inr \<lparr>corrected_text = get_corrected_text S a,
                            annotations = get_annotations S a\<rparr>)"
proof -
  let ?d = "(nlp S t)\<lparr>spans := (spans (nlp S t))(''speliuk_errors'' \<mapsto> detected_spans S t)\<rparr>"
  have "tokens ?d = tokens (nlp S t)" by simp
  then have "correct_loop S ?d (detected_spans S t) (AnnotatedText S t)
      = correct_loop S (nlp S t) (detected_spans S t) (AnnotatedText S t)"
    by (rule correct_loop_tokens)
  then show ?thesis
    by (simp add: correct_def Let_def set_error_spans_eq)
qed

lemma correct_loop_returns:
  "correct_loop S d es a = Inr a' \<Longrightarrow> s \<in> set es \<Longrightarrow>
   \<exists>sp b. s = Some sp \<and> valid_edit S d (Some sp) = Inr b"
proof (induction es arbitrary: a)
  case Nil
  then show ?case by simp
next
  case (Cons ent rest)
  from Cons.prems(1) obtain sp where ent: "ent = Some sp"
    by (cases ent) (simp_all add: correct_loop_Cons del: correct_loop.simps)
  from Cons.prems(1) obtain b where b: "valid_edit S d (Some sp) = Inr b"
    by (cases "valid_edit S d (Some sp)")
       (simp_all add: correct_loop_Cons ent del: correct_loop.simps)
  from Cons.prems(1) obtain a2 where rest: "correct_loop S d rest a2 = Inr a'"
    by (cases b)
       (auto simp: correct_loop_Cons ent b simp del: correct_loop.simps split: sum.splits)
  show ?case
  proof (cases "s = ent")
    case True
    with ent b show ?thesis by blast
  next
    case False
    with Cons.prems(2) have "s \<in> set rest" by simp
    from Cons.IH[OF rest this] show ?thesis .
  qed
qed

lemma valid_edit_returns:
  "valid_edit S d (Some sp) = Inr b \<Longrightarrow> starts_with_digit S (span_text sp) \<or> has_token d sp"
  by (auto simp: valid_edit_Some split: if_splits)

lemma starts_with_digit_Nil: "\<not> starts_with_digit S []"
  by (simp add: starts_with_digit_def)





lemma demo_detected:
  "detected_spans demo_speliuk demo_text =
     [Some (demo_span 1 2 2 5 ''lke'' (str_lit ''ERROR'')),
      Some (demo_span 2 3 6 9 ''tea'' (str_lit ''ERROR'')),
      Some (demo_span 3 4 10 13 ''Bob'' (str_lit ''ERROR'')),
      Some (demo_span 4 5 14 17 ''2go'' (str_lit ''ERROR''))]"
  by code_simp

lemma demo_has_token:
  "\<forall>s \<in> set (detected_spans demo_speliuk demo_text).
     \<exists>sp. s = Some sp \<and> has_token (nlp demo_speliuk demo_text) sp"
proof -
  have "has_token (nlp demo_speliuk demo_text) (demo_span 1 2 2 5 ''lke'' (str_lit ''ERROR''))"
    "has_token (nlp demo_speliuk demo_text) (demo_span 2 3 6 9 ''tea'' (str_lit ''ERROR''))"
    "has_token (nlp demo_speliuk demo_text) (demo_span 3 4 10 13 ''Bob'' (str_lit ''ERROR''))"
    "has_token (nlp demo_speliuk demo_text) (demo_span 4 5 14 17 ''2go'' (str_lit ''ERROR''))"
    by code_simp+
  then show ?thesis by (simp add: demo_detected)
qed


lemma demo_correct:
  "correct demo_speliuk demo_text =
     Inr \<lparr>corrected_text = str_lit ''a like tea Bob 2go'',
          annotations =
            [\<lparr>ann_start = 2, ann_end = 5, source_text = str_lit ''lke'',
              suggestions = [str_lit ''like'']\<rparr>,
             \<lparr>ann_start = 6, ann_end = 9, source_text = str_lit ''tea'',
              suggestions = [str_lit ''tea'']\<rparr>]\<rparr>"
  by code_simp

text \<open>
  Claim C8, as amended. Whenever \<open>correct\<close> returns a value, every detected span is a
  span (not \<open>None\<close>) with at least one token of the main document, given that a span
  without tokens has an empty text (as in spaCy, where the text of a span is made of its
  tokens). When \<open>char_span\<close> returns \<open>None\<close> for a detected entity, \<open>_set_error_spans\<close>
  itself raises ValueError at the assignment to \<open>doc.spans\<close>, and so does \<open>correct\<close>:
  nothing is stored and \<open>_valid_edit\<close> is not reached. Otherwise \<open>_set_error_spans\<close>
  stores the results of \<open>char_span\<close>, and for a stored span without tokens
  \<open>_valid_edit\<close> raises IndexError.
\<close>

theorem correct_returns_only_for_aligned_spans:
  "(correct S t = Inr c
      \<and> (\<forall>sp. Some sp \<in> set (detected_spans S t) \<longrightarrow> \<not> has_token (nlp S t) sp
             \<longrightarrow> span_text sp = [])
      \<longrightarrow> (\<forall>s \<in> set (detected_spans S t). \<exists>sp. s = Some sp \<and> has_token (nlp S t) sp))
   \<and> (None \<in> set (map (\<lambda>sp. char_span S (nlp S t) (start_char sp) (end_char sp) (span_label sp))
                          (ents (error_detection_pipe S (doc_text (nlp S t)))))
      \<longrightarrow> set_error_spans S (nlp S t) = Inl ValueError \<and> correct S t = Inl ValueError)
   \<and> (None \<notin> set (map (\<lambda>sp. char_span S (nlp S t) (start_char sp) (end_char sp) (span_label sp))
                          (ents (error_detection_pipe S (doc_text (nlp S t)))))
      \<longrightarrow> (\<exists>d. set_error_spans S (nlp S t) = Inr d
             \<and> tokens d = tokens (nlp S t)
             \<and> spans d ''speliuk_errors''
                 = Some (map (\<lambda>sp. char_span S (nlp S t) (start_char sp) (end_char sp) (span_label sp))
                             (ents (error_detection_pipe S (doc_text (nlp S t)))))))
   \<and> (\<forall>sp. \<not> has_token (nlp S t) sp \<and> span_text sp = []
          \<longrightarrow> valid_edit S (nlp S t) (Some sp) = Inl IndexError)"
proof (intro conjI impI)
  assume a: "correct S t = Inr c
      \<and> (\<forall>sp. Some sp \<in> set (detected_spans S t) \<longrightarrow> \<not> has_token (nlp S t) sp
             \<longrightarrow> span_text sp = [])"
  then have nn: "None \<notin> set (detected_spans S t)"
    by (auto simp: correct_eq split: if_splits)
  with a obtain a' where
    loop: "correct_loop S (nlp S t) (detected_spans S t) (AnnotatedText S t) = Inr a'"
    by (auto simp: correct_eq split: sum.splits)
  show "\<forall>s \<in> set (detected_spans S t). \<exists>sp. s = Some sp \<and> has_token (nlp S t) sp"
  proof
    fix s assume s: "s \<in> set (detected_spans S t)"
    from correct_loop_returns[OF loop s] obtain sp b where
      sp: "s = Some sp" and v: "valid_edit S (nlp S t) (Some sp) = Inr b"
      by blast
    from valid_edit_returns[OF v] have
      d: "starts_with_digit S (span_text sp) \<or> has_token (nlp S t) sp" .
    have "has_token (nlp S t) sp"
    proof (rule ccontr)
      assume n: "\<not> has_token (nlp S t) sp"
      with a s sp have "span_text sp = []" by blast
      with d n show False by (simp add: starts_with_digit_Nil)
    qed
    with sp show "\<exists>sp. s = Some sp \<and> has_token (nlp S t) sp" by blast
  qed
next
  assume "None \<in> set (map (\<lambda>sp. char_span S (nlp S t) (start_char sp) (end_char sp) (span_label sp))
                          (ents (error_detection_pipe S (doc_text (nlp S t)))))"
  then have n: "None \<in> set (detected_spans S t)" by (simp add: detected_spans_def)
  from n show "set_error_spans S (nlp S t) = Inl ValueError" by (simp add: set_error_spans_eq)
  from n show "correct S t = Inl ValueError" by (simp add: correct_eq)
next
  assume "None \<notin> set (map (\<lambda>sp. char_span S (nlp S t) (start_char sp) (end_char sp) (span_label sp))
                          (ents (error_detection_pipe S (doc_text (nlp S t)))))"
  then show "\<exists>d. set_error_spans S (nlp S t) = Inr d
             \<and> tokens d = tokens (nlp S t)
             \<and> spans d ''speliuk_errors''
                 = Some (map (\<lambda>sp. char_span S (nlp S t) (start_char sp) (end_char sp) (span_label sp))
                             (ents (error_detection_pipe S (doc_text (nlp S t)))))"
    by (simp add: set_error_spans_def Let_def)
next
  show "\<forall>sp. \<not> has_token (nlp S t) sp \<and> span_text sp = []
          \<longrightarrow> valid_edit S (nlp S t) (Some sp) = Inl IndexError"
    by (simp add: valid_edit_Some starts_with_digit_Nil)
qed

theorem correct_returns_only_for_aligned_spans_witness:
  "(\<exists>c. correct demo_speliuk demo_text = Inr c)
   \<and> None \<notin> set (detected_spans demo_speliuk demo_text)
   \<and> list_all (has_token (nlp demo_speliuk demo_text))
        (map the (detected_spans demo_speliuk demo_text))
   \<and> None \<in> set (map (\<lambda>sp. char_span misaligned_speliuk (nlp misaligned_speliuk demo_text)
                                (start_char sp) (end_char sp) (span_label sp))
                     (ents (error_detection_pipe misaligned_speliuk
                              (doc_text (nlp misaligned_speliuk demo_text)))))
   \<and> set_error_spans misaligned_speliuk (nlp misaligned_speliuk demo_text) = Inl ValueError
   \<and> correct misaligned_speliuk demo_text = Inl ValueError"
proof -
  have wf: "\<forall>sp. Some sp \<in> set (detected_spans demo_speliuk demo_text)
      \<longrightarrow> \<not> has_token (nlp demo_speliuk demo_text) sp \<longrightarrow> span_text sp = []"
    using demo_has_token by auto
  note inst = correct_returns_only_for_aligned_spans[of demo_speliuk demo_text
      "\<lparr>corrected_text = str_lit ''a like tea Bob 2go'',
          annotations =
            [\<lparr>ann_start = 2, ann_end = 5, source_text = str_lit ''lke'',
              suggestions = [str_lit ''like'']\<rparr>,
             \<lparr>ann_start = 6, ann_end = 9, source_text = str_lit ''tea'',
              suggestions = [str_lit ''tea'']\<rparr>]\<rparr>"]
  from inst demo_correct wf
  have "\<forall>s \<in> set (detected_spans demo_speliuk demo_text).
         \<exists>sp. s = Some sp \<and> has_token (nlp demo_speliuk demo_text) sp"
    by blast
  then have 1: "None \<notin> set (detected_spans demo_speliuk demo_text)"
    and 2: "list_all (has_token (nlp demo_speliuk demo_text))
        (map the (detected_spans demo_speliuk demo_text))"
    by (auto simp: list_all_iff)
  have 3: "None \<in> set (map (\<lambda>sp. char_span misaligned_speliuk (nlp misaligned_speliuk demo_text)
                                (start_char sp) (end_char sp) (span_label sp))
                     (ents (error_detection_pipe misaligned_speliuk
                              (doc_text (nlp misaligned_speliuk demo_text)))))"
    by code_simp
  from correct_returns_only_for_aligned_spans[of misaligned_speliuk demo_text] 3
  have 4: "set_error_spans misaligned_speliuk (nlp misaligned_speliuk demo_text) = Inl ValueError
   \<and> correct misaligned_speliuk demo_text = Inl ValueError"
    by blast
  from demo_correct 1 2 3 4 show ?thesis by simp
qed

theorem set_error_spans_none_counterexample:
  "detected_spans misaligned_speliuk demo_text =
     [None,
      Some (demo_span 2 3 6 9 ''tea'' (str_lit ''ERROR'')),
      Some (demo_span 3 4 10 13 ''Bob'' (str_lit ''ERROR'')),
      Some (demo_span 4 5 14 17 ''2go'' (str_lit ''ERROR''))]
   \<and> set_error_spans misaligned_speliuk (nlp misaligned_speliuk demo_text) = Inl ValueError
   \<and> correct misaligned_speliuk demo_text = Inl ValueError
   \<and> valid_edit misaligned_speliuk (nlp misaligned_speliuk demo_text) None = Inl AttributeError
   \<and> correct misaligned_speliuk demo_text \<noteq> Inl AttributeError"
proof -
  have d: "detected_spans misaligned_speliuk demo_text =
     [None,
      Some (demo_span 2 3 6 9 ''tea'' (str_lit ''ERROR'')),
      Some (demo_span 3 4 10 13 ''Bob'' (str_lit ''ERROR'')),
      Some (demo_span 4 5 14 17 ''2go'' (str_lit ''ERROR''))]"
    by code_simp
  have s: "set_error_spans misaligned_speliuk (nlp misaligned_speliuk demo_text) = Inl ValueError"
    by (simp add: set_error_spans_eq d)
  have c: "correct misaligned_speliuk demo_text = Inl ValueError"
    by (simp add: correct_eq d)
  have v: "valid_edit misaligned_speliuk (nlp misaligned_speliuk demo_text) None
      = Inl AttributeError"
    by (simp add: valid_edit_def)
  from d s c v show ?thesis by simp
qed















section \<open>Replacement of the placeholder\<close>

lemma no_straddle:
  assumes "p \<noteq> []" "hd p \<notin> set (tl p)" "u \<noteq> []" "prefix p (u @ p @ v)"
  shows "prefix p u"
proof (cases "length p \<le> length u")
  case True
  from assms(4) obtain w where w: "u @ p @ v = p @ w" by (auto simp: prefix_def)
  have "take (length p) (u @ p @ v) = take (length p) (p @ w)" by (simp only: w)
  then have "take (length p) (u @ p @ v) = p" by simp
  with True have "take (length p) u = p" by simp
  then show ?thesis by (metis take_is_prefix)
next
  case False
  then have lt: "length u < length p" by simp
  from assms(4) obtain w where w: "u @ p @ v = p @ w" by (auto simp: prefix_def)
  have "(u @ p @ v) ! length u = p ! 0"
    using assms(1) by (simp add: nth_append)
  moreover have "(p @ w) ! length u = p ! length u"
    using lt by (simp add: nth_append)
  ultimately have eq: "p ! length u = hd p"
    using w assms(1) by (simp add: hd_conv_nth)
  from assms(3) obtain n where n: "length u = Suc n" by (cases u) auto
  with lt have "p ! length u = tl p ! n" "n < length (tl p)"
    using assms(1) by (simp_all add: nth_tl)
  then have "p ! length u \<in> set (tl p)" by (metis nth_mem)
  with eq assms(2) show ?thesis by simp
qed

lemma py_replace_occurrence:
  assumes p: "p \<noteq> []" and h: "hd p \<notin> set (tl p)"
  shows "py_replace (u @ p @ v) p c = py_replace u p c @ c @ py_replace v p c"
proof (induction u rule: length_induct)
  case (1 u)
  show ?case
  proof (cases u)
    case Nil
    from p obtain a q where q: "p = a # q" by (cases p) auto
    have "py_replace (p @ v) p c = c @ py_replace (drop (length p) (p @ v)) p c"
      using p by (simp add: q)
    then show ?thesis using p Nil by simp
  next
    case (Cons x xs)
    show ?thesis
    proof (cases "prefix p (u @ p @ v)")
      case True
      with no_straddle[OF p h _ True] Cons have pu: "prefix p u" by simp
      then have len: "length p \<le> length u" by (rule prefix_length_le)
      have "length (drop (length p) u) < length u"
        using p Cons by simp
      with 1 have IH: "py_replace (drop (length p) u @ p @ v) p c
          = py_replace (drop (length p) u) p c @ c @ py_replace v p c"
        by blast
      have a: "py_replace (u @ p @ v) p c = c @ py_replace (drop (length p) (u @ p @ v)) p c"
        using True p Cons by simp
      have b: "py_replace u p c = c @ py_replace (drop (length p) u) p c"
        using pu p Cons by simp
      have d: "drop (length p) (u @ p @ v) = drop (length p) u @ p @ v"
        using len by simp
      show ?thesis by (simp only: a b d IH append_assoc)
    next
      case False
      then have nu: "\<not> prefix p u" by (meson prefix_order.trans prefixI)
      have "length xs < length u" using Cons by simp
      with 1 have IH: "py_replace (xs @ p @ v) p c = py_replace xs p c @ c @ py_replace v p c"
        by blast
      have a: "py_replace (u @ p @ v) p c = x # py_replace (xs @ p @ v) p c"
        using False p Cons by simp
      have b: "py_replace u p c = x # py_replace xs p c"
        using nu p Cons by simp
      show ?thesis by (simp only: a b IH append_Cons)
    qed
  qed
qed

lemma MASK_TOKEN_border: "MASK_TOKEN \<noteq> []" "hd MASK_TOKEN \<notin> set (tl MASK_TOKEN)"
  by (simp_all add: MASK_TOKEN_def str_lit_def)

lemma py_replace_mask:
  "py_replace (u @ MASK_TOKEN @ v) MASK_TOKEN c
     = py_replace u MASK_TOKEN c @ c @ py_replace v MASK_TOKEN c"
  by (rule py_replace_occurrence[OF MASK_TOKEN_border])

lemma py_join_Cons: "py_join sep (m # ys) = m @ concat (map (\<lambda>t. sep @ t) ys)"
  by (induction ys arbitrary: m) simp_all

lemma py_join_split:
  "py_join sep (xs @ m # ys)
     = concat (map (\<lambda>t. t @ sep) xs) @ m @ concat (map (\<lambda>t. sep @ t) ys)"
proof (induction xs)
  case Nil
  show ?case by (simp add: py_join_Cons)
next
  case (Cons x xs)
  then show ?case by (cases xs) (simp_all add: py_join_Cons)
qed

lemma get_masked_text_5:
  "get_masked_text d sp 5 =
     py_join (str_lit '' '') (map tok_text (slice (tokens d) (span_start sp - 5) (span_start sp)))
     @ str_lit '' '' @ MASK_TOKEN @ str_lit '' '' @
     py_join (str_lit '' '') (map tok_text (slice (tokens d) (span_end sp) (span_end sp + 5)))"
proof -
  have "(if 5 \<le> span_start sp then span_start sp - 5 else 0) = span_start sp - 5" by simp
  then show ?thesis by (simp add: get_masked_text_def Let_def)
qed

lemma py_replace_left_context_mask:
  assumes "slice (tokens d) (span_start sp - 5) (span_start sp) = L1 @ tok # L2"
    and "tok_text tok = MASK_TOKEN"
  shows "py_replace (get_masked_text d sp 5) MASK_TOKEN cand =
      py_replace (concat (map (\<lambda>t. t @ str_lit '' '') (map tok_text L1))) MASK_TOKEN cand
      @ cand
      @ py_replace (concat (map (\<lambda>t. str_lit '' '' @ t) (map tok_text L2)) @ str_lit '' '')
          MASK_TOKEN cand
      @ cand
      @ py_replace (str_lit '' '' @ py_join (str_lit '' '')
           (map tok_text (slice (tokens d) (span_end sp) (span_end sp + 5)))) MASK_TOKEN cand"
proof -
  let ?A = "concat (map (\<lambda>t. t @ str_lit '' '') (map tok_text L1))"
  let ?B = "concat (map (\<lambda>t. str_lit '' '' @ t) (map tok_text L2)) @ str_lit '' ''"
  let ?C = "str_lit '' '' @ py_join (str_lit '' '')
           (map tok_text (slice (tokens d) (span_end sp) (span_end sp + 5)))"
  from assms have "get_masked_text d sp 5 = ?A @ MASK_TOKEN @ (?B @ MASK_TOKEN @ ?C)"
    using py_join_split[of "str_lit '' ''" "map tok_text L1" MASK_TOKEN "map tok_text L2"]
    by (simp add: get_masked_text_5)
  then show ?thesis by (simp only: py_replace_mask)
qed

lemma py_replace_right_context_mask:
  assumes "slice (tokens d) (span_end sp) (span_end sp + 5) = R1 @ tok # R2"
    and "tok_text tok = MASK_TOKEN"
  shows "py_replace (get_masked_text d sp 5) MASK_TOKEN cand =
      py_replace (py_join (str_lit '' '')
           (map tok_text (slice (tokens d) (span_start sp - 5) (span_start sp))) @ str_lit '' '')
          MASK_TOKEN cand
      @ cand
      @ py_replace (str_lit '' '' @ concat (map (\<lambda>t. t @ str_lit '' '') (map tok_text R1)))
          MASK_TOKEN cand
      @ cand
      @ py_replace (concat (map (\<lambda>t. str_lit '' '' @ t) (map tok_text R2))) MASK_TOKEN cand"
proof -
  let ?A = "py_join (str_lit '' '')
           (map tok_text (slice (tokens d) (span_start sp - 5) (span_start sp))) @ str_lit '' ''"
  let ?B = "str_lit '' '' @ concat (map (\<lambda>t. t @ str_lit '' '') (map tok_text R1))"
  let ?C = "concat (map (\<lambda>t. str_lit '' '' @ t) (map tok_text R2))"
  from assms have "get_masked_text d sp 5 = ?A @ MASK_TOKEN @ (?B @ MASK_TOKEN @ ?C)"
    using py_join_split[of "str_lit '' ''" "map tok_text R1" MASK_TOKEN "map tok_text R2"]
    by (simp add: get_masked_text_5)
  then show ?thesis by (simp only: py_replace_mask)
qed

text \<open>
  Claim C10. The score that \<open>_kenlm_rerank\<close> gives a candidate for the masked text of a
  span is the language-model score of the lower-cased masked text with every occurrence
  of the placeholder replaced: when a token of the left or of the right context is itself
  the text \<open><mask>\<close>, the scored text has the candidate at that token's position as well as
  at the position of the masked span.
\<close>

theorem kenlm_rerank_scores_context_mask:
  "cand \<in> set candidates \<longrightarrow>
     (slice (tokens d) (span_start sp - 5) (span_start sp) = L1 @ tok # L2
        \<and> tok_text tok = MASK_TOKEN \<longrightarrow>
      dict_get (kenlm_rerank S (get_masked_text d sp 5) candidates) cand =
        Inr (kenlm_score S (str_lower S
          (py_replace (concat (map (\<lambda>t. t @ str_lit '' '') (map tok_text L1))) MASK_TOKEN cand
           @ cand
           @ py_replace (concat (map (\<lambda>t. str_lit '' '' @ t) (map tok_text L2)) @ str_lit '' '')
               MASK_TOKEN cand
           @ cand
           @ py_replace (str_lit '' '' @ py_join (str_lit '' '')
                (map tok_text (slice (tokens d) (span_end sp) (span_end sp + 5))))
               MASK_TOKEN cand))))
     \<and> (slice (tokens d) (span_end sp) (span_end sp + 5) = R1 @ tok # R2
        \<and> tok_text tok = MASK_TOKEN \<longrightarrow>
      dict_get (kenlm_rerank S (get_masked_text d sp 5) candidates) cand =
        Inr (kenlm_score S (str_lower S
          (py_replace (py_join (str_lit '' '')
                (map tok_text (slice (tokens d) (span_start sp - 5) (span_start sp)))
                @ str_lit '' '') MASK_TOKEN cand
           @ cand
           @ py_replace (str_lit '' '' @ concat (map (\<lambda>t. t @ str_lit '' '') (map tok_text R1)))
               MASK_TOKEN cand
           @ cand
           @ py_replace (concat (map (\<lambda>t. str_lit '' '' @ t) (map tok_text R2)))
               MASK_TOKEN cand))))"
proof (intro impI conjI)
  assume c: "cand \<in> set candidates"
    and a: "slice (tokens d) (span_start sp - 5) (span_start sp) = L1 @ tok # L2
        \<and> tok_text tok = MASK_TOKEN"
  from a have 1: "slice (tokens d) (span_start sp - 5) (span_start sp) = L1 @ tok # L2"
    and 2: "tok_text tok = MASK_TOKEN" by blast+
  show "dict_get (kenlm_rerank S (get_masked_text d sp 5) candidates) cand =
        Inr (kenlm_score S (str_lower S
          (py_replace (concat (map (\<lambda>t. t @ str_lit '' '') (map tok_text L1))) MASK_TOKEN cand
           @ cand
           @ py_replace (concat (map (\<lambda>t. str_lit '' '' @ t) (map tok_text L2)) @ str_lit '' '')
               MASK_TOKEN cand
           @ cand
           @ py_replace (str_lit '' '' @ py_join (str_lit '' '')
                (map tok_text (slice (tokens d) (span_end sp) (span_end sp + 5))))
               MASK_TOKEN cand)))"
    by (simp only: kenlm_rerank_get[OF c] masked_score_eq
        py_replace_left_context_mask[OF 1 2])
next
  assume c: "cand \<in> set candidates"
    and a: "slice (tokens d) (span_end sp) (span_end sp + 5) = R1 @ tok # R2
        \<and> tok_text tok = MASK_TOKEN"
  from a have 1: "slice (tokens d) (span_end sp) (span_end sp + 5) = R1 @ tok # R2"
    and 2: "tok_text tok = MASK_TOKEN" by blast+
  show "dict_get (kenlm_rerank S (get_masked_text d sp 5) candidates) cand =
        Inr (kenlm_score S (str_lower S
          (py_replace (py_join (str_lit '' '')
                (map tok_text (slice (tokens d) (span_start sp - 5) (span_start sp)))
                @ str_lit '' '') MASK_TOKEN cand
           @ cand
           @ py_replace (str_lit '' '' @ concat (map (\<lambda>t. t @ str_lit '' '') (map tok_text R1)))
               MASK_TOKEN cand
           @ cand
           @ py_replace (concat (map (\<lambda>t. str_lit '' '' @ t) (map tok_text R2)))
               MASK_TOKEN cand)))"
    by (simp only: kenlm_rerank_get[OF c] masked_score_eq
        py_replace_right_context_mask[OF 1 2])
qed

theorem kenlm_rerank_scores_context_mask_witness:
  "str_lit ''like'' \<in> set [str_lit ''like'', str_lit ''lke'']
   \<and> slice (tokens mask_doc) (span_start (demo_span 1 2 7 10 ''lke'' []) - 5)
       (span_start (demo_span 1 2 7 10 ''lke'' []))
     = [] @ \<lparr>tok_text = str_lit ''<mask>'', ent_type = []\<rparr> # []
   \<and> tok_text \<lparr>tok_text = str_lit ''<mask>'', ent_type = []\<rparr> = MASK_TOKEN
   \<and> get_masked_text mask_doc (demo_span 1 2 7 10 ''lke'' []) 5 = str_lit ''<mask> <mask> tea''
   \<and> dict_get (kenlm_rerank mask_speliuk (get_masked_text mask_doc (demo_span 1 2 7 10 ''lke'' []) 5)
         [str_lit ''like'', str_lit ''lke'']) (str_lit ''like'')
       = Inr (kenlm_score mask_speliuk (str_lower mask_speliuk (str_lit ''like like tea'')))
   \<and> kenlm_score mask_speliuk (str_lower mask_speliuk (str_lit ''like like tea'')) = - 7
   \<and> kenlm_rerank mask_speliuk (str_lit ''<mask> <mask> tea'') [str_lit ''like'', str_lit ''lke'']
       = [(str_lit ''like'', - 7), (str_lit ''lke'', - 9)]"
proof -
  let ?sp = "demo_span 1 2 7 10 ''lke'' []"
  let ?tok = "\<lparr>tok_text = str_lit ''<mask>'', ent_type = []\<rparr>"
  have 0: "str_lit ''like'' \<in> set [str_lit ''like'', str_lit ''lke'']" by simp
  have 1: "slice (tokens mask_doc) (span_start ?sp - 5) (span_start ?sp) = [] @ ?tok # []"
    by code_simp
  have 2: "tok_text ?tok = MASK_TOKEN" by code_simp
  have 3: "get_masked_text mask_doc ?sp 5 = str_lit ''<mask> <mask> tea''" by code_simp
  have 4: "py_replace (concat (map (\<lambda>t. t @ str_lit '' '') (map tok_text []))) MASK_TOKEN (str_lit ''like'')
      @ str_lit ''like''
      @ py_replace (concat (map (\<lambda>t. str_lit '' '' @ t) (map tok_text [])) @ str_lit '' '')
          MASK_TOKEN (str_lit ''like'')
      @ str_lit ''like''
      @ py_replace (str_lit '' '' @ py_join (str_lit '' '')
           (map tok_text (slice (tokens mask_doc) (span_end ?sp) (span_end ?sp + 5))))
          MASK_TOKEN (str_lit ''like'') = str_lit ''like like tea''"
    by code_simp
  have 12: "slice (tokens mask_doc) (span_start ?sp - 5) (span_start ?sp) = [] @ ?tok # []
      \<and> tok_text ?tok = MASK_TOKEN"
    using 1 2 by (rule conjI)
  note inst = kenlm_rerank_scores_context_mask[of "str_lit ''like''"
      "[str_lit ''like'', str_lit ''lke'']" mask_doc ?sp "[]" ?tok "[]" mask_speliuk]
  note eq = mp[OF conjunct1[OF mp[OF inst 0]] 12]
  have 5: "dict_get (kenlm_rerank mask_speliuk (get_masked_text mask_doc ?sp 5)
         [str_lit ''like'', str_lit ''lke'']) (str_lit ''like'')
       = Inr (kenlm_score mask_speliuk (str_lower mask_speliuk (str_lit ''like like tea'')))"
    using eq by (simp only: 4)
  have 6: "kenlm_score mask_speliuk (str_lower mask_speliuk (str_lit ''like like tea'')) = - 7"
    by code_simp
  have 7: "kenlm_rerank mask_speliuk (str_lit ''<mask> <mask> tea'')
      [str_lit ''like'', str_lit ''lke''] = [(str_lit ''like'', - 7), (str_lit ''lke'', - 9)]"
    by code_simp
  from 0 1 2 3 5 6 7 show ?thesis by blast
qed

end
